theory Spec2Isabelle
  imports Complex_Main "HOL-Library.Char_ord" "HOL-Library.List_Lexorder" "HOL-Library.Sublist"
begin

section \<open>Python values, errors and strings\<close>

text \<open>
  Every fatal condition of \<^verbatim>\<open>sqlize_csv.py\<close> is reported by \<^verbatim>\<open>arcpy.AddError(msg)\<close>
  followed by \<^verbatim>\<open>raise BBB_SharedFunctions.CustomError\<close>; the model keeps the message inside
  the error value. The other constructors are the built-in exceptions that the code can let
  escape.
\<close>

datatype error =
    CustomError string
  | IndexError
  | ValueError
  | KeyError
  | AttributeError
  | UnboundLocalError
  | StopIteration
  | UnicodeDecodeError

text \<open>
  A Python float: an IEEE double is a rational number, an infinity or a NaN. Rounding happens
  inside \<^verbatim>\<open>float()\<close>, which is a parameter of the model; comparisons of doubles are comparisons
  of their exact values, with every comparison against NaN false.
\<close>

datatype pyfloat = Finite rat | PosInf | NegInf | NaN

fun fle :: "pyfloat \<Rightarrow> pyfloat \<Rightarrow> bool" where
  "fle NaN _ = False"
| "fle _ NaN = False"
| "fle NegInf _ = True"
| "fle _ PosInf = True"
| "fle (Finite a) (Finite b) = (a \<le> b)"
| "fle PosInf _ = False"
| "fle _ NegInf = False"

text \<open>A field of a row: text as read from the CSV file, or a number once a time was converted.\<close>

datatype cell = PyStr string | PyInt int | PyFloat pyfloat

text \<open>Strings are sequences of code points below 256; \<^verbatim>\<open>str.strip()\<close> removes the
  characters for which \<^verbatim>\<open>isspace()\<close> holds, at both ends.\<close>

definition isspace :: "char \<Rightarrow> bool" where
  "isspace c = (c \<in> set [CHR 0x09, CHR 0x0A, CHR 0x0B, CHR 0x0C, CHR 0x0D,
                          CHR 0x1C, CHR 0x1D, CHR 0x1E, CHR 0x1F, CHR 0x20, CHR 0x85, CHR 0xA0])"

definition strip :: "string \<Rightarrow> string" where
  "strip s = rev (dropWhile isspace (rev (dropWhile isspace s)))"

definition endswith :: "string \<Rightarrow> string \<Rightarrow> bool" where
  "endswith s suf = (length suf \<le> length s \<and> drop (length s - length suf) s = suf)"

definition isdigit :: "char \<Rightarrow> bool" where
  "isdigit c = (c \<in> set ''0123456789'')"

definition isalnum :: "char \<Rightarrow> bool" where
  "isalnum c = (c \<in> set ''ABCDEFGHIJKLMNOPQRSTUVWXYZabcdefghijklmnopqrstuvwxyz0123456789'')"

text \<open>\<^verbatim>\<open>list.index(x)\<close>: the first position of \<open>x\<close>, or ValueError.\<close>

fun list_index :: "'a list \<Rightarrow> 'a \<Rightarrow> nat option" where
  "list_index [] x = None"
| "list_index (y # ys) x = (if y = x then Some 0 else map_option Suc (list_index ys x))"

definition index :: "'a list \<Rightarrow> 'a \<Rightarrow> error + nat" where
  "index xs x = (case list_index xs x of None \<Rightarrow> Inl ValueError | Some i \<Rightarrow> Inr i)"

text \<open>\<^verbatim>\<open>row[idx]\<close> for a non-negative index: IndexError beyond the end.\<close>

definition getitem :: "'a list \<Rightarrow> nat \<Rightarrow> error + 'a" where
  "getitem xs i = (if i < length xs then Inr (xs ! i) else Inl IndexError)"

text \<open>Sequencing of computations that may raise.\<close>

definition thenE :: "error + 'a \<Rightarrow> ('a \<Rightarrow> error + 'b) \<Rightarrow> error + 'b" where
  "thenE m f = (case m of Inl e \<Rightarrow> Inl e | Inr x \<Rightarrow> f x)"

text \<open>A lazy \<^verbatim>\<open>map(f, rows)\<close> consumed to its end: the first row on which \<open>f\<close> raises
  ends the iteration with that error.\<close>

fun mapE :: "('a \<Rightarrow> error + 'b) \<Rightarrow> 'a list \<Rightarrow> error + 'b list" where
  "mapE f [] = Inr []"
| "mapE f (x # xs) =
     (case f x of Inl e \<Rightarrow> Inl e
      | Inr y \<Rightarrow> (case mapE f xs of Inl e \<Rightarrow> Inl e | Inr ys \<Rightarrow> Inr (y # ys)))"

section \<open>External collaborators\<close>

text \<open>
  The functions the module calls but does not define are parameters of the model:
  Python's \<^verbatim>\<open>float()\<close> (\<open>None\<close> is ValueError), \<^verbatim>\<open>hms.str2sec\<close>,
  \<^verbatim>\<open>datetime.strptime(_, '%Y%m%d')\<close> (whether it succeeds), \<^verbatim>\<open>str()\<close> of a row tuple, of
  the header list, and of the list of service_id pairs, the \<^verbatim>\<open>os.path\<close> functions, and the
  CSV reader, which yields the rows of a file one at a time and may raise while reading.
  \<^verbatim>\<open>hms.str2sec\<close> is taken to return on every string, as the code relies on it to do on
  the strings that \<^verbatim>\<open>check_time_str\<close> accepts.
\<close>

record ext =
  py_float :: "string \<Rightarrow> pyfloat option"
  str2sec :: "string \<Rightarrow> int"
  strptime_ok :: "string \<Rightarrow> bool"
  str_row :: "cell list \<Rightarrow> string"
  str_columns :: "string list \<Rightarrow> string"
  str_pairs :: "(string \<times> string) list \<Rightarrow> string"
  path_join :: "string \<Rightarrow> string \<Rightarrow> string"
  path_basename :: "string \<Rightarrow> string"
  path_normpath :: "string \<Rightarrow> string"
  path_exists :: "string \<Rightarrow> bool"
  csv_reader :: "string \<Rightarrow> (error + string list) list"

section \<open>Schema registry\<close>

datatype sqltype = TEXT | REAL | INTEGER

datatype requirement = Required | Default string

type_synonym table_spec = "(string \<times> sqltype \<times> requirement) list"


definition sql_schema :: "(string \<times> table_spec) list" where
  "sql_schema =
    [(''stops'',
       [(''stop_id'', TEXT, Required),
        (''stop_code'', TEXT, Default ''NULL''),
        (''stop_name'', TEXT, Required),
        (''stop_desc'', TEXT, Default ''NULL''),
        (''stop_lat'', REAL, Required),
        (''stop_lon'', REAL, Required),
        (''zone_id'', TEXT, Default ''NULL''),
        (''stop_url'', TEXT, Default ''NULL''),
        (''location_type'', INTEGER, Default ''NULL''),
        (''parent_station'', TEXT, Default ''NULL'')]),
     (''calendar'',
       [(''service_id'', TEXT, Required),
        (''monday'', INTEGER, Required),
        (''tuesday'', INTEGER, Required),
        (''wednesday'', INTEGER, Required),
        (''thursday'', INTEGER, Required),
        (''friday'', INTEGER, Required),
        (''saturday'', INTEGER, Required),
        (''sunday'', INTEGER, Required),
        (''start_date'', TEXT, Required),
        (''end_date'', TEXT, Required)]),
     (''calendar_dates'',
       [(''service_id'', TEXT, Required),
        (''date'', TEXT, Required),
        (''exception_type'', INTEGER, Required)]),
     (''stop_times'',
       [(''trip_id'', TEXT, Required),
        (''arrival_time'', REAL, Required),
        (''departure_time'', REAL, Required),
        (''stop_id'', TEXT, Required),
        (''stop_sequence'', INTEGER, Required),
        (''stop_headsign'', TEXT, Default ''NULL''),
        (''pickup_type'', INTEGER, Default ''0''),
        (''drop_off_type'', INTEGER, Default ''0''),
        (''shape_dist_traveled'', REAL, Default ''NULL'')]),
     (''trips'',
       [(''route_id'', TEXT, Required),
        (''service_id'', TEXT, Required),
        (''trip_id'', TEXT, Required),
        (''trip_headsign'', TEXT, Default ''NULL''),
        (''trip_short_name'', TEXT, Default ''NULL''),
        (''direction_id'', INTEGER, Default ''NULL''),
        (''block_id'', TEXT, Default ''NULL''),
        (''shape_id'', TEXT, Default ''NULL'')]),
     (''routes'',
       [(''route_id'', TEXT, Required),
        (''agency_id'', TEXT, Default ''NULL''),
        (''route_short_name'', TEXT, Default ''NULL''),
        (''route_long_name'', TEXT, Default ''NULL''),
        (''route_desc'', TEXT, Default ''NULL''),
        (''route_type'', INTEGER, Required),
        (''route_url'', TEXT, Default ''NULL''),
        (''route_color'', TEXT, Default ''NULL''),
        (''route_text_color'', TEXT, Default ''NULL'')]),
     (''frequencies'',
       [(''trip_id'', TEXT, Required),
        (''start_time'', REAL, Required),
        (''end_time'', REAL, Required),
        (''headway_secs'', INTEGER, Required)])]"

text \<open>\<^verbatim>\<open>sql_schema[tablename]\<close>: KeyError for a name that is not a table.\<close>

definition schema_of :: "string \<Rightarrow> error + table_spec" where
  "schema_of tablename =
     (case map_of sql_schema tablename of None \<Rightarrow> Inl KeyError | Some tbl \<Rightarrow> Inr tbl)"

section \<open>Time strings\<close>

text \<open>
  \<^verbatim>\<open>re.match('^-?\d?\d:\d\d:\d\d$', s)\<close>, read from left to right. \<^verbatim>\<open>$\<close> matches at the end
  of the string and also just before a final newline. Among the code points below 256 the
  class \<^verbatim>\<open>\d\<close> holds the ten ASCII digits.
\<close>

definition re_end :: "string \<Rightarrow> bool" where
  "re_end s = (s = [] \<or> s = [CHR 0x0A])"

fun re_mmss :: "string \<Rightarrow> bool" where
  "re_mmss (c1 # m1 # m2 # c2 # s1 # s2 # r) =
     (c1 = CHR '':'' \<and> isdigit m1 \<and> isdigit m2 \<and> c2 = CHR '':'' \<and> isdigit s1 \<and> isdigit s2
      \<and> re_end r)"
| "re_mmss _ = False"

fun re_hours :: "string \<Rightarrow> bool" where
  "re_hours (h1 # h2 # r) = (isdigit h1 \<and> ((isdigit h2 \<and> re_mmss r) \<or> re_mmss (h2 # r)))"
| "re_hours _ = False"

definition check_time_str :: "string \<Rightarrow> bool" where
  "check_time_str s =
     (case s of [] \<Rightarrow> False
      | c # r \<Rightarrow> (c = CHR ''-'' \<and> re_hours r) \<or> re_hours s)"

section \<open>Identifier namespacer\<close>

text \<open>\<^verbatim>\<open>re.sub("[^A-Za-z0-9]", "", service)\<close> keeps the ASCII letters and digits.\<close>

definition re_sub_non_alnum :: "string \<Rightarrow> string" where
  "re_sub_non_alnum service = filter isalnum service"

definition is_id_field :: "string \<Rightarrow> bool" where
  "is_id_field field = (endswith field ''_id'' \<and> field \<noteq> ''direction_id'')"

text \<open>The set \<^verbatim>\<open>s\<close> of positions to label, held in ascending order, and the loop of
  \<^verbatim>\<open>add_labels\<close> over it: each step reads the original row and writes the copy.\<close>

definition label_columns :: "string list \<Rightarrow> nat list" where
  "label_columns columns =
     map fst (filter (\<lambda>(idx, field). is_id_field field) (enumerate 0 columns))"

fun add_labels_loop :: "string \<Rightarrow> cell list \<Rightarrow> nat list \<Rightarrow> cell list \<Rightarrow> error + cell list" where
  "add_labels_loop service row [] ret = Inr ret"
| "add_labels_loop service row (idx # s) ret =
     (if idx < length row then
        (case row ! idx of
           PyStr v \<Rightarrow> add_labels_loop service row s (ret[idx := PyStr (service @ '':'' @ strip v)])
         | _ \<Rightarrow> Inl AttributeError)
      else Inl IndexError)"

definition add_labels :: "string \<Rightarrow> nat list \<Rightarrow> cell list \<Rightarrow> error + cell list" where
  "add_labels service s row = add_labels_loop service row s row"

definition make_add_agency_labels :: "string \<Rightarrow> string list \<Rightarrow> cell list \<Rightarrow> error + cell list" where
  "make_add_agency_labels service columns =
     (let service' = re_sub_non_alnum service;
          s = label_columns columns
      in add_labels service' s)"

section \<open>Column projector\<close>

text \<open>\<^verbatim>\<open>out_row.pop(idx)\<close>, keeping the list: IndexError beyond the end.\<close>

definition pop :: "nat \<Rightarrow> 'a list \<Rightarrow> error + 'a list" where
  "pop idx xs = (if idx < length xs then Inr (take idx xs @ drop (Suc idx) xs) else Inl IndexError)"

fun pop_all :: "nat list \<Rightarrow> 'a list \<Rightarrow> error + 'a list" where
  "pop_all [] out_row = Inr out_row"
| "pop_all (idx # cols) out_row =
     (case pop idx out_row of Inl e \<Rightarrow> Inl e | Inr out_row' \<Rightarrow> pop_all cols out_row')"

text \<open>The positions of the header's columns that the table does not declare, last first.\<close>

definition extra_columns :: "table_spec \<Rightarrow> string list \<Rightarrow> nat list" where
  "extra_columns tbl columns =
     rev (map fst (filter (\<lambda>(idx, field). field \<notin> set (map fst tbl)) (enumerate 0 columns)))"

definition wrong_fields_msg :: "ext \<Rightarrow> string \<Rightarrow> string list \<Rightarrow> cell list \<Rightarrow> string" where
  "wrong_fields_msg x tablename columns in_row =
     ''GTFS table '' @ tablename @
     '' contains at least one row with the wrong number of fields. Fields: '' @
     str_columns x columns @ ''; Row: '' @ str_row x in_row"

definition drop_fields ::
  "ext \<Rightarrow> string \<Rightarrow> string list \<Rightarrow> nat list \<Rightarrow> cell list \<Rightarrow> error + cell list" where
  "drop_fields x tablename columns cols in_row =
     (if length in_row \<noteq> length columns
      then Inl (CustomError (wrong_fields_msg x tablename columns in_row))
      else pop_all cols in_row)"

definition make_remove_extra_fields ::
  "ext \<Rightarrow> string \<Rightarrow> string list \<Rightarrow> error + (cell list \<Rightarrow> error + cell list)" where
  "make_remove_extra_fields x tablename columns =
     (case schema_of tablename of
        Inl e \<Rightarrow> Inl e
      | Inr tbl \<Rightarrow> Inr (drop_fields x tablename columns (extra_columns tbl columns)))"


section \<open>Required-field check\<close>

definition missing_field_msg :: "string \<Rightarrow> string \<Rightarrow> string \<Rightarrow> string" where
  "missing_field_msg tablename dataset col =
     ''GTFS file '' @ tablename @ ''.txt in dataset '' @ dataset @
     '' is missing required field '' @ [CHR 0x27] @ col @ [CHR 0x27] @
     ''. Failed to SQLize GTFS data''"

fun required_loop :: "string \<Rightarrow> string list \<Rightarrow> string \<Rightarrow> table_spec \<Rightarrow> error + unit" where
  "required_loop tablename columns dataset [] = Inr ()"
| "required_loop tablename columns dataset ((col, ty, req) # tbl) =
     (if req = Required \<and> col \<notin> set columns
      then Inl (CustomError (missing_field_msg tablename dataset col))
      else required_loop tablename columns dataset tbl)"

definition check_for_required_fields :: "string \<Rightarrow> string list \<Rightarrow> string \<Rightarrow> error + unit" where
  "check_for_required_fields tablename columns dataset =
     (case schema_of tablename of
        Inl e \<Rightarrow> Inl e
      | Inr tbl \<Rightarrow> required_loop tablename columns dataset tbl)"

section \<open>Row validators\<close>

subsection \<open>Times\<close>

definition empty_time_msg :: "string \<Rightarrow> string" where
  "empty_time_msg GTFSdir =
     ''GTFS dataset '' @ GTFSdir @
     '' contains empty values for arrival_time or departure_time in stop_times.txt.  '' @
     ''Although the GTFS spec allows empty values for these fields, this toolbox '' @
     ''requires exact time values for all stops.  You will not be able to use this '' @
     ''dataset for your analysis.''"

definition invalid_value_msg :: "string \<Rightarrow> string \<Rightarrow> string \<Rightarrow> string" where
  \<open>invalid_value_msg col file val =
     ''Column "'' @ col @ ''" in file '' @ file @ '' has an invalid value: '' @ val\<close>

text \<open>The body of the loop over the time columns, for the field at one position.\<close>

definition convert_time_value ::
  "ext \<Rightarrow> string list \<Rightarrow> string \<Rightarrow> string \<Rightarrow> nat \<Rightarrow> string \<Rightarrow> error + cell" where
  "convert_time_value x col_names fname GTFSdir idx raw =
     (let field = strip raw in
      if check_time_str field then Inr (PyInt (str2sec x field))
      else if field = [] then Inl (CustomError (empty_time_msg GTFSdir))
      else (case py_float x field of
              Some v \<Rightarrow> Inr (PyFloat v)
            | None \<Rightarrow>
                (case getitem col_names idx of
                   Inl e \<Rightarrow> Inl e
                 | Inr col \<Rightarrow>
                     Inl (CustomError
                            (invalid_value_msg col (path_join x GTFSdir fname) field @ ''.'')))))"

fun convert_loop ::
  "ext \<Rightarrow> string list \<Rightarrow> string \<Rightarrow> string \<Rightarrow> string list \<Rightarrow> nat list \<Rightarrow> cell list
     \<Rightarrow> error + cell list" where
  "convert_loop x col_names fname GTFSdir row [] out_row = Inr out_row"
| "convert_loop x col_names fname GTFSdir row (idx # idxs) out_row =
     (case getitem row idx of
        Inl e \<Rightarrow> Inl e
      | Inr raw \<Rightarrow>
          (case convert_time_value x col_names fname GTFSdir idx raw of
             Inl e \<Rightarrow> Inl e
           | Inr v \<Rightarrow> convert_loop x col_names fname GTFSdir row idxs (out_row[idx := v])))"

definition convert_time_columns ::
  "ext \<Rightarrow> string list \<Rightarrow> string \<Rightarrow> string \<Rightarrow> nat list \<Rightarrow> string list \<Rightarrow> error + cell list" where
  "convert_time_columns x col_names fname GTFSdir time_column_idxs row =
     convert_loop x col_names fname GTFSdir row time_column_idxs (map PyStr row)"

definition smarter_convert_times ::
  "ext \<Rightarrow> string list \<Rightarrow> string \<Rightarrow> string \<Rightarrow> string list
     \<Rightarrow> error + (string list \<Rightarrow> error + cell list)" where
  "smarter_convert_times x col_names fname GTFSdir time_columns =
     (case mapE (index col_names) time_columns of
        Inl e \<Rightarrow> Inl e
      | Inr time_column_idxs \<Rightarrow>
          Inr (convert_time_columns x col_names fname GTFSdir time_column_idxs))"

subsection \<open>Dates\<close>

definition date_format_msg :: "string" where
  "date_format_msg =
     ''. Date fields must be in YYYYMMDD format. Please check the date field formatting '' @
     ''in calendar.txt and calendar_dates.txt.''"

fun date_loop :: "ext \<Rightarrow> string list \<Rightarrow> string \<Rightarrow> string list \<Rightarrow> nat list \<Rightarrow> error + unit" where
  "date_loop x col_names fname row [] = Inr ()"
| "date_loop x col_names fname row (idx # idxs) =
     (case getitem row idx of
        Inl e \<Rightarrow> Inl e
      | Inr date \<Rightarrow>
          if strptime_ok x date then date_loop x col_names fname row idxs
          else (case getitem col_names idx of
                  Inl e \<Rightarrow> Inl e
                | Inr col \<Rightarrow>
                    Inl (CustomError (invalid_value_msg col fname date @ date_format_msg))))"

definition check_date_cols ::
  "ext \<Rightarrow> string list \<Rightarrow> string \<Rightarrow> string \<Rightarrow> string list \<Rightarrow> error + string list" where
  "check_date_cols x col_names tablename fname row =
     (if tablename = ''calendar'' \<or> tablename = ''calendar_dates'' then
        (case mapE (index col_names)
                (if tablename = ''calendar'' then [''start_date'', ''end_date''] else [''date'']) of
           Inl e \<Rightarrow> Inl e
         | Inr date_column_idxs \<Rightarrow>
             (case date_loop x col_names fname row date_column_idxs of
                Inl e \<Rightarrow> Inl e
              | Inr u \<Rightarrow> Inr row))
      else Inl UnboundLocalError)"

subsection \<open>Latitude and longitude\<close>

definition latlon_please :: "string" where
  "latlon_please = ''Please double-check all lat/lon values in your stops.txt file.''"

definition latlon_nonnumeric_msg :: "string \<Rightarrow> string \<Rightarrow> string \<Rightarrow> string \<Rightarrow> string" where
  \<open>latlon_nonnumeric_msg stop_id fname which val =
     ''stop_id "'' @ stop_id @ ''" in '' @ fname @
     '' contains an invalid non-numerical value for the '' @ which @ '' field: "'' @ val @
     ''". '' @ latlon_please\<close>

definition latlon_range_msg ::
  "string \<Rightarrow> string \<Rightarrow> string \<Rightarrow> string \<Rightarrow> string \<Rightarrow> string" where
  \<open>latlon_range_msg stop_id fname rng which val =
     ''stop_id "'' @ stop_id @ ''" in '' @ fname @
     '' contains an invalid value outside the range '' @ rng @ '' the '' @ which @
     '' field: "'' @ val @ ''". '' @ which @
     '' values must be in valid WGS 84 coordinates.  '' @ latlon_please\<close>

definition check_latlon_cols ::
  "ext \<Rightarrow> string list \<Rightarrow> string \<Rightarrow> string list \<Rightarrow> error + string list" where
  "check_latlon_cols x col_names fname row =
     thenE (thenE (index col_names ''stop_id'') (getitem row)) (\<lambda>stop_id.
     thenE (thenE (index col_names ''stop_lat'') (getitem row)) (\<lambda>stop_lat.
     thenE (thenE (index col_names ''stop_lon'') (getitem row)) (\<lambda>stop_lon.
       case py_float x stop_lat of
         None \<Rightarrow> Inl (CustomError (latlon_nonnumeric_msg stop_id fname ''stop_lat'' stop_lat))
       | Some stop_lat_float \<Rightarrow>
          (case py_float x stop_lon of
             None \<Rightarrow> Inl (CustomError (latlon_nonnumeric_msg stop_id fname ''stop_lon'' stop_lon))
           | Some stop_lon_float \<Rightarrow>
               if \<not> (fle (Finite (- 90)) stop_lat_float \<and> fle stop_lat_float (Finite 90)) then
                 Inl (CustomError
                        (latlon_range_msg stop_id fname ''(-90, 90)'' ''stop_lat'' stop_lat))
               else if \<not> (fle (Finite (- 180)) stop_lon_float \<and> fle stop_lon_float (Finite 180))
               then
                 Inl (CustomError
                        (latlon_range_msg stop_id fname ''(-180, 180)'' ''stop_lon'' stop_lon))
               else Inr row))))"

section \<open>Dataset loader\<close>

text \<open>
  The store records what \<^verbatim>\<open>executemany\<close> inserted: for each table file, the table name, the
  projected header and the projected rows. A table file is inserted only when every row passed.
\<close>

type_synonym db = "(string \<times> cell list \<times> cell list list) list"

text \<open>The rows the reader yields: blank rows dropped, every field stripped.\<close>

definition reader_rows :: "ext \<Rightarrow> string \<Rightarrow> (error + string list) list" where
  "reader_rows x fname =
     map (\<lambda>r. case r of Inl e \<Rightarrow> Inl e | Inr fs \<Rightarrow> Inr (map strip fs))
       (filter (\<lambda>r. case r of Inl e \<Rightarrow> True | Inr fs \<Rightarrow> 0 < length fs) (csv_reader x fname))"

definition table_of_fname :: "ext \<Rightarrow> string \<Rightarrow> string" where
  "table_of_fname x fname =
     path_basename x (if endswith fname ''.txt'' then take (length fname - 4) fname else fname)"

text \<open>The validator that \<^verbatim>\<open>handle_file\<close> selects for a table.\<close>

definition row_validator ::
  "ext \<Rightarrow> string \<Rightarrow> string list \<Rightarrow> string \<Rightarrow> string
     \<Rightarrow> error + (string list \<Rightarrow> error + cell list)" where
  "row_validator x tablename columns fname service_label =
     (if tablename = ''stop_times'' then
        smarter_convert_times x columns fname service_label [''arrival_time'', ''departure_time'']
      else if tablename = ''frequencies'' then
        smarter_convert_times x columns fname service_label [''start_time'', ''end_time'']
      else if tablename \<in> set [''calendar'', ''calendar_dates''] then
        Inr (\<lambda>row. thenE (check_date_cols x columns tablename fname row) (\<lambda>r. Inr (map PyStr r)))
      else if tablename = ''stops'' then
        Inr (\<lambda>row. thenE (check_latlon_cols x columns fname row) (\<lambda>r. Inr (map PyStr r)))
      else Inr (\<lambda>row. Inr (map PyStr row)))"

text \<open>What one data row goes through, in the order of the lazy pipeline: the table's validator,
  the labeller, the column filter.\<close>

definition process_row ::
  "(string list \<Rightarrow> error + cell list) \<Rightarrow> (cell list \<Rightarrow> error + cell list)
     \<Rightarrow> (cell list \<Rightarrow> error + cell list) \<Rightarrow> error + string list \<Rightarrow> error + cell list" where
  "process_row validate labeller columns_filter item =
     thenE item (\<lambda>row. thenE (thenE (validate row) labeller) columns_filter)"

definition handle_file :: "ext \<Rightarrow> string \<Rightarrow> string \<Rightarrow> db \<Rightarrow> error + db" where
  "handle_file x fname service_label store =
     (let tablename = table_of_fname x fname in
      case reader_rows x fname of
        [] \<Rightarrow> Inl StopIteration
      | Inl e # reader \<Rightarrow> Inl e
      | Inr header # reader \<Rightarrow>
          (let columns = map strip header in
           thenE (check_for_required_fields tablename columns service_label) (\<lambda>u.
           thenE (row_validator x tablename columns fname service_label) (\<lambda>validate.
           let labeller = make_add_agency_labels service_label columns in
           thenE (make_remove_extra_fields x tablename columns) (\<lambda>columns_filter.
           thenE (columns_filter (map PyStr columns)) (\<lambda>columns'.
           thenE (mapE (process_row validate labeller columns_filter) reader) (\<lambda>rows.
           Inr (store @ [(tablename, columns', rows)]))))))))"

text \<open>\<^verbatim>\<open>str(missing_files)\<close>: the entries are literal file names, printed between single
  quotes.\<close>

fun join :: "string \<Rightarrow> string list \<Rightarrow> string" where
  "join sep [] = []"
| "join sep [s] = s"
| "join sep (s # t # ss) = s @ sep @ join sep (t # ss)"

definition str_names :: "string list \<Rightarrow> string" where
  "str_names names = ''['' @ join '', '' (map (\<lambda>n. [CHR 0x27] @ n @ [CHR 0x27]) names) @ '']''"







section \<open>Merge consistency checker\<close>

text \<open>
  The checker sees the store through two queries: whether a table named \<^verbatim>\<open>calendar\<close> exists
  (\<open>None\<close> when it does not), and the \<^verbatim>\<open>(service_id, start_date, end_date)\<close> rows of that
  table. The dictionaries are maps; \<^verbatim>\<open>d[k]\<close> is KeyError for a key that is absent.
\<close>

type_synonym calendar_rows = "(string \<times> string \<times> string) list"

definition dict_get :: "('k \<rightharpoonup> 'v) \<Rightarrow> 'k \<Rightarrow> error + 'v" where
  "dict_get d k = (case d k of None \<Rightarrow> Inl KeyError | Some v \<Rightarrow> Inr v)"

fun collect_ids ::
  "calendar_rows \<Rightarrow> string list \<times> (string \<rightharpoonup> string) \<times> (string \<rightharpoonup> string)
     \<Rightarrow> string list \<times> (string \<rightharpoonup> string) \<times> (string \<rightharpoonup> string)" where
  "collect_ids [] st = st"
| "collect_ids ((sid, sdate, edate) # ids) (serviceidlist, startdatedict, enddatedict) =
     collect_ids ids
       (serviceidlist @ [sid], startdatedict(sid \<mapsto> sdate), enddatedict(sid \<mapsto> edate))"

fun inner_loop ::
  "(string \<rightharpoonup> string) \<Rightarrow> (string \<rightharpoonup> string) \<Rightarrow> string \<Rightarrow> string list
     \<Rightarrow> (string \<times> string) list \<Rightarrow> error + (string \<times> string) list" where
  "inner_loop startdatedict enddatedict sid [] nonoverlappingsids = Inr nonoverlappingsids"
| "inner_loop startdatedict enddatedict sid (eid # eids) nonoverlappingsids =
     thenE (dict_get startdatedict sid) (\<lambda>sdate.
     thenE (dict_get enddatedict eid) (\<lambda>edate.
       let nonoverlappingsids' =
             (if sdate > edate then nonoverlappingsids @ [(sid, eid)] else nonoverlappingsids)
       in if length nonoverlappingsids' \<ge> 10 then Inr nonoverlappingsids'
          else inner_loop startdatedict enddatedict sid eids nonoverlappingsids'))"

fun outer_loop ::
  "(string \<rightharpoonup> string) \<Rightarrow> (string \<rightharpoonup> string) \<Rightarrow> string list \<Rightarrow> string list
     \<Rightarrow> (string \<times> string) list \<Rightarrow> error + (string \<times> string) list" where
  "outer_loop startdatedict enddatedict serviceidlist [] nonoverlappingsids =
     Inr nonoverlappingsids"
| "outer_loop startdatedict enddatedict serviceidlist (sid # sids) nonoverlappingsids =
     thenE (inner_loop startdatedict enddatedict sid serviceidlist nonoverlappingsids)
       (\<lambda>nonoverlappingsids'.
          if length nonoverlappingsids' \<ge> 10 then Inr nonoverlappingsids'
          else outer_loop startdatedict enddatedict serviceidlist sids nonoverlappingsids')"

text \<open>The pairs the two loops leave in \<^verbatim>\<open>nonoverlappingsids\<close>.\<close>

definition nonoverlapping_pairs :: "calendar_rows \<Rightarrow> error + (string \<times> string) list" where
  "nonoverlapping_pairs ids =
     (case collect_ids ids ([], Map.empty, Map.empty) of
        (serviceidlist, startdatedict, enddatedict) \<Rightarrow>
          outer_loop startdatedict enddatedict serviceidlist serviceidlist [])"

definition overlap_warning_text :: "string" where
  "overlap_warning_text =
     ''Warning! Your calendar.txt file(s) contain(s) '' @
     ''non-overlapping date ranges. As a result, your analysis might double '' @
     ''count the number of trips available if you are analyzing a generic weekday '' @
     ''instead of a specific date.  This is especially likely if the '' @
     ''non-overlapping pairs are in the same GTFS dataset.  Please check the date '' @
     ''ranges in your calendar.txt file(s). See the User's Guide for further '' @
     ''assistance.  Date ranges do not overlap in the following pairs of service_ids: ''"

definition truncation_note :: "string" where
  "truncation_note = ''(Showing the first 10 non-overlaps) ''"

definition check_nonoverlapping_dateranges :: "ext \<Rightarrow> calendar_rows option \<Rightarrow> error + string" where
  "check_nonoverlapping_dateranges x calendar =
     (case calendar of
        None \<Rightarrow> Inl UnboundLocalError
      | Some ids \<Rightarrow>
          thenE (nonoverlapping_pairs ids) (\<lambda>nonoverlappingsids.
            Inr (if nonoverlappingsids \<noteq> [] then
                   overlap_warning_text @
                   (if length nonoverlappingsids = 10 then truncation_note else []) @
                   str_pairs x nonoverlappingsids
                 else [])))"

text \<open>The list and the two dictionaries as the collection loop leaves them.\<close>

definition serviceidlist_of :: "calendar_rows \<Rightarrow> string list" where
  "serviceidlist_of ids = fst (collect_ids ids ([], Map.empty, Map.empty))"

definition startdatedict_of :: "calendar_rows \<Rightarrow> (string \<rightharpoonup> string)" where
  "startdatedict_of ids = fst (snd (collect_ids ids ([], Map.empty, Map.empty)))"

definition enddatedict_of :: "calendar_rows \<Rightarrow> (string \<rightharpoonup> string)" where
  "enddatedict_of ids = snd (snd (collect_ids ids ([], Map.empty, Map.empty)))"

text \<open>The test of the inner loop, on a pair of service ids: the start date held for the first
  is greater, as a string, than the end date held for the second.\<close>

definition starts_after_end ::
  "(string \<rightharpoonup> string) \<Rightarrow> (string \<rightharpoonup> string) \<Rightarrow> string \<times> string \<Rightarrow> bool" where
  "starts_after_end startdatedict enddatedict p =
     (case (startdatedict (fst p), enddatedict (snd p)) of
        (Some sdate, Some edate) \<Rightarrow> sdate > edate
      | _ \<Rightarrow> False)"

text \<open>The start and end date of the last calendar row that carries a service id.\<close>

definition last_row :: "calendar_rows \<Rightarrow> string \<Rightarrow> (string \<times> string) option" where
  "last_row ids sid =
     (let rs = filter (\<lambda>r. fst r = sid) ids in if rs = [] then None else Some (snd (last rs)))"

section \<open>Reference readings\<close>

text \<open>
  The value the time check gives one field, written after the spec: the seconds of a field of
  the shape that \<^verbatim>\<open>check_time_str\<close> accepts, the float of any other non-empty field that
  \<^verbatim>\<open>float()\<close> accepts, and no value otherwise.
\<close>

definition time_value :: "ext \<Rightarrow> string \<Rightarrow> cell option" where
  "time_value x raw =
     (let field = strip raw in
      if check_time_str field then Some (PyInt (str2sec x field))
      else if field = [] then None
      else map_option PyFloat (py_float x field))"

text \<open>A float lies within a closed interval: it is a number, not less than the lower bound
  and not greater than the upper bound.\<close>

definition in_closed_interval :: "rat \<Rightarrow> rat \<Rightarrow> pyfloat \<Rightarrow> bool" where
  "in_closed_interval lo hi v = (case v of Finite r \<Rightarrow> lo \<le> r \<and> r \<le> hi | _ \<Rightarrow> False)"


section \<open>A sample environment\<close>

text \<open>
  To run the model on concrete inputs, the parameters are instantiated with samples:
  decimal literals for \<^verbatim>\<open>float()\<close> (the exact value, which is the double whenever the double
  is exact, as for 95.0, 40.0 and 100), eight-digit dates, POSIX-style paths over a given list
  of files, and renderings of lists of plain text.
\<close>

definition digit_val :: "char \<Rightarrow> nat" where
  "digit_val c = of_char c - 48"

definition nat_of_digits :: "string \<Rightarrow> nat" where
  "nat_of_digits ds = foldl (\<lambda>a c. 10 * a + digit_val c) 0 ds"

definition decimal_value :: "string \<Rightarrow> rat option" where
  "decimal_value s =
     (let ip = takeWhile isdigit s; rest = dropWhile isdigit s in
      if ip = [] then None
      else if rest = [] then Some (of_nat (nat_of_digits ip))
      else if hd rest = CHR ''.'' \<and> list_all isdigit (tl rest)
      then Some (of_nat (nat_of_digits (ip @ tl rest)) / 10 ^ length (tl rest))
      else None)"

definition float_decimal :: "string \<Rightarrow> pyfloat option" where
  "float_decimal s =
     (case strip s of
        [] \<Rightarrow> None
      | c # r \<Rightarrow>
          if c = CHR ''-'' then map_option (\<lambda>v. Finite (- v)) (decimal_value r)
          else if c = CHR ''+'' then map_option Finite (decimal_value r)
          else map_option Finite (decimal_value (c # r)))"

text \<open>
  Modelled from the spec: \<^verbatim>\<open>hms.str2sec\<close> is not among the sources. The spec describes it as
  a pure function from a validated \<^verbatim>\<open>H:MM:SS\<close>-shaped string to the integer count of seconds
  since midnight (\<^verbatim>\<open>"08:05:00"\<close> is 29100, \<^verbatim>\<open>"25:00:00"\<close> is 90000). It says nothing of a
  leading minus sign, which is read here as negating the count.
\<close>

definition str2sec_hms :: "string \<Rightarrow> int" where
  "str2sec_hms s =
     (let neg = (take 1 s = ''-'');
          u = (if neg then drop 1 s else s);
          h = takeWhile (\<lambda>c. c \<noteq> CHR '':'') u;
          ms = drop (length h + 1) u;
          v = int (3600 * nat_of_digits h + 60 * nat_of_digits (take 2 ms)
                   + nat_of_digits (take 2 (drop 3 ms)))
      in if neg then - v else v)"

definition yyyymmdd :: "string \<Rightarrow> bool" where
  "yyyymmdd s = (length s = 8 \<and> list_all isdigit s)"

definition quoted :: "string \<Rightarrow> string" where
  "quoted s = [CHR 0x27] @ s @ [CHR 0x27]"

fun repr_cell :: "cell \<Rightarrow> string" where
  "repr_cell (PyStr s) = quoted s"
| "repr_cell _ = ''<number>''"

definition repr_pairs :: "(string \<times> string) list \<Rightarrow> string" where
  "repr_pairs ps =
     ''['' @ join '', '' (map (\<lambda>(a, b). ''['' @ quoted a @ '', '' @ quoted b @ '']'') ps) @ '']''"

definition posix_basename :: "string \<Rightarrow> string" where
  "posix_basename p = rev (takeWhile (\<lambda>c. c \<noteq> CHR ''/'') (rev p))"

definition posix_normpath :: "string \<Rightarrow> string" where
  "posix_normpath p = rev (dropWhile (\<lambda>c. c = CHR ''/'') (rev p))"

definition sample_ext :: "(string \<times> string list list) list \<Rightarrow> ext" where
  "sample_ext files =
     \<lparr> py_float = float_decimal,
       str2sec = str2sec_hms,
       strptime_ok = yyyymmdd,
       str_row = (\<lambda>row. ''('' @ join '', '' (map repr_cell row) @
                         (if length row = 1 then '','' else []) @ '')''),
       str_columns = str_names,
       str_pairs = repr_pairs,
       path_join = (\<lambda>d f. d @ ''/'' @ f),
       path_basename = posix_basename,
       path_normpath = posix_normpath,
       path_exists = (\<lambda>p. p \<in> set (map fst files)),
       csv_reader = (\<lambda>p. case map_of files p of None \<Rightarrow> [] | Some rows \<Rightarrow> map Inr rows) \<rparr>"

section \<open>Properties of the identifier namespacer\<close>

lemma endswith_suffix: "endswith s suf = suffix suf s"
  unfolding endswith_def suffix_def
  by (metis append_eq_conv_conj append_take_drop_id diff_add_inverse2 le_add2 length_append
      length_drop)

lemma set_label_columns:
  "set (label_columns columns) = {i. i < length columns \<and> is_id_field (columns ! i)}"
  unfolding label_columns_def
  by (auto simp: in_set_enumerate_eq image_iff)

lemma add_labels_loop_nth:
  assumes "\<forall>idx\<in>set s. idx < length row \<and> (\<exists>v. row ! idx = PyStr v)"
  shows "\<exists>out. add_labels_loop service row s ret = Inr out \<and> length out = length ret \<and>
           (\<forall>j<length ret. out ! j =
              (if j \<in> set s
               then (case row ! j of PyStr v \<Rightarrow> PyStr (service @ '':'' @ strip v) | c \<Rightarrow> c)
               else ret ! j))"
  using assms
proof (induction s arbitrary: ret)
  case Nil
  then show ?case by simp
next
  case (Cons idx s)
  from Cons.prems obtain v where v: "idx < length row" "row ! idx = PyStr v" by auto
  let ?ret = "ret[idx := PyStr (service @ '':'' @ strip v)]"
  from Cons.prems have "\<forall>i\<in>set s. i < length row \<and> (\<exists>v. row ! i = PyStr v)" by simp
  from Cons.IH[OF this, of ?ret] obtain out where
    out: "add_labels_loop service row s ?ret = Inr out" "length out = length ?ret"
      "\<forall>j<length ?ret. out ! j =
         (if j \<in> set s
          then (case row ! j of PyStr v \<Rightarrow> PyStr (service @ '':'' @ strip v) | c \<Rightarrow> c)
          else ?ret ! j)" by blast
  have "add_labels_loop service row (idx # s) ret = Inr out" using v out(1) by simp
  moreover have "length out = length ret" using out(2) by simp
  moreover have "\<forall>j<length ret. out ! j =
      (if j \<in> set (idx # s)
       then (case row ! j of PyStr v \<Rightarrow> PyStr (service @ '':'' @ strip v) | c \<Rightarrow> c)
       else ret ! j)"
    using out(3) v by (auto simp: nth_list_update)
  ultimately show ?case by blast
qed

text \<open>A row that ends before one of the identifier columns makes the labeller raise IndexError.\<close>

lemma add_labels_loop_IndexError:
  assumes "\<exists>idx\<in>set s. \<not> idx < length row"
    and "\<forall>idx\<in>set s. idx < length row \<longrightarrow> (\<exists>v. row ! idx = PyStr v)"
  shows "add_labels_loop service row s ret = Inl IndexError"
  using assms by (induction s arbitrary: ret) (auto split: cell.splits)

text \<open>
  Claim C1. For every dataset label, header and row that has a text field at each identifier
  column (a column whose name ends in \<^verbatim>\<open>_id\<close> and is not \<^verbatim>\<open>direction_id\<close>), the function
  built by \<^verbatim>\<open>make_add_agency_labels\<close> returns the row in which exactly the fields at
  identifier columns are replaced by the label without its characters outside
  \<^verbatim>\<open>[A-Za-z0-9]\<close>, a colon, and the stripped original value; every other field is the original
  one. The function that is built is the row function applied to the label already sanitized
  and the positions already computed, so neither is recomputed per row.
\<close>

theorem make_add_agency_labels_rewrites_id_columns:
  assumes "\<forall>i<length columns.
             suffix ''_id'' (columns ! i) \<and> columns ! i \<noteq> ''direction_id'' \<longrightarrow>
             i < length row \<and> (\<exists>v. row ! i = PyStr v)"
  shows "make_add_agency_labels service columns row =
           Inr (map (\<lambda>i. if i < length columns \<and> suffix ''_id'' (columns ! i)
                              \<and> columns ! i \<noteq> ''direction_id''
                           then (case row ! i of
                                   PyStr v \<Rightarrow> PyStr (filter isalnum service @ '':'' @ strip v)
                                 | c \<Rightarrow> c)
                           else row ! i) [0..<length row])
         \<and> make_add_agency_labels service columns =
             add_labels (re_sub_non_alnum service) (label_columns columns)"
proof -
  let ?s = "label_columns columns"
  let ?sv = "re_sub_non_alnum service"
  let ?f = "\<lambda>i. if i < length columns \<and> suffix ''_id'' (columns ! i)
                      \<and> columns ! i \<noteq> ''direction_id''
                   then (case row ! i of
                           PyStr v \<Rightarrow> PyStr (filter isalnum service @ '':'' @ strip v)
                         | c \<Rightarrow> c)
                   else row ! i"
  have in_s: "\<And>i. i \<in> set ?s \<longleftrightarrow>
      i < length columns \<and> suffix ''_id'' (columns ! i) \<and> columns ! i \<noteq> ''direction_id''"
    by (simp add: set_label_columns is_id_field_def endswith_suffix)
  have "\<forall>idx\<in>set ?s. idx < length row \<and> (\<exists>v. row ! idx = PyStr v)"
    using assms in_s by simp
  from add_labels_loop_nth[OF this, of ?sv row] obtain out where
    out: "add_labels_loop ?sv row ?s row = Inr out" "length out = length row"
     "\<forall>j<length row. out ! j =
        (if j \<in> set ?s
         then (case row ! j of PyStr v \<Rightarrow> PyStr (?sv @ '':'' @ strip v) | c \<Rightarrow> c)
         else row ! j)" by blast
  have "out = map ?f [0..<length row]"
  proof (rule nth_equalityI)
    show "length out = length (map ?f [0..<length row])"
      using out(2) by simp
  next
    fix i assume "i < length out"
    then have i: "i < length row" using out(2) by simp
    then show "out ! i = map ?f [0..<length row] ! i"
      using out(3) in_s by (auto simp: re_sub_non_alnum_def split: cell.splits)
  qed
  then have "make_add_agency_labels service columns row = Inr (map ?f [0..<length row])"
    using out(1) by (simp add: make_add_agency_labels_def add_labels_def)
  moreover have "make_add_agency_labels service columns =
      add_labels (re_sub_non_alnum service) (label_columns columns)"
    by (simp add: make_add_agency_labels_def)
  ultimately show ?thesis by blast
qed

theorem make_add_agency_labels_rewrites_id_columns_witness:
  "make_add_agency_labels ''my cta!'' [''trip_id'', ''arrival_time'', ''stop_id'', ''direction_id'']
     [PyStr '' t1 '', PyInt 29100, PyStr ''1518'', PyStr ''0''] =
   Inr [PyStr ''mycta:t1'', PyInt 29100, PyStr ''mycta:1518'', PyStr ''0'']"
proof -
  let ?columns = "[''trip_id'', ''arrival_time'', ''stop_id'', ''direction_id'']"
  let ?row = "[PyStr '' t1 '', PyInt 29100, PyStr ''1518'', PyStr ''0'']"
  have s: "suffix ''_id'' ''trip_id''" "\<not> suffix ''_id'' ''arrival_time''"
    "suffix ''_id'' ''stop_id''" "suffix ''_id'' ''direction_id''"
    by (simp_all add: suffix_to_prefix)
  have h: "\<forall>i<length ?columns.
      suffix ''_id'' (?columns ! i) \<and> ?columns ! i \<noteq> ''direction_id'' \<longrightarrow>
      i < length ?row \<and> (\<exists>v. ?row ! i = PyStr v)"
    using s by (simp add: All_less_Suc)
  have r: "map (\<lambda>i. if i < length ?columns \<and> suffix ''_id'' (?columns ! i)
                         \<and> ?columns ! i \<noteq> ''direction_id''
                      then (case ?row ! i of
                              PyStr v \<Rightarrow> PyStr (filter isalnum ''my cta!'' @ '':'' @ strip v)
                            | c \<Rightarrow> c)
                      else ?row ! i) [0..<length ?row]
      = [PyStr ''mycta:t1'', PyInt 29100, PyStr ''mycta:1518'', PyStr ''0'']"
    using s by (simp add: upt_rec isalnum_def strip_def isspace_def)
  from make_add_agency_labels_rewrites_id_columns[OF h, of "''my cta!''"]
  show ?thesis unfolding r by blast
qed

section \<open>Properties of the column projector\<close>












section \<open>Properties of the merge consistency checker\<close>

lemma collect_ids_eq:
  "collect_ids ids (l, sd, ed) =
     (l @ map fst ids,
      sd ++ map_of (rev (map (\<lambda>(s, a, b). (s, a)) ids)),
      ed ++ map_of (rev (map (\<lambda>(s, a, b). (s, b)) ids)))"
proof (induction ids arbitrary: l sd ed)
  case Nil
  then show ?case by simp
next
  case (Cons r ids)
  obtain s a b where r: "r = (s, a, b)" by (cases r)
  have u: "\<And>(m :: string \<rightharpoonup> string) k v M. m ++ ([k \<mapsto> v] ++ M) = m(k \<mapsto> v) ++ M"
    by (auto simp: fun_eq_iff map_add_def split: option.splits)
  have "collect_ids (r # ids) (l, sd, ed) =
      collect_ids ids (l @ [s], sd(s \<mapsto> a), ed(s \<mapsto> b))"
    by (simp add: r)
  also have "\<dots> = ((l @ [s]) @ map fst ids,
      sd(s \<mapsto> a) ++ map_of (rev (map (\<lambda>(s, a, b). (s, a)) ids)),
      ed(s \<mapsto> b) ++ map_of (rev (map (\<lambda>(s, a, b). (s, b)) ids)))"
    by (rule Cons.IH)
  also have "\<dots> = (l @ map fst (r # ids),
      sd ++ map_of (rev (map (\<lambda>(s, a, b). (s, a)) (r # ids))),
      ed ++ map_of (rev (map (\<lambda>(s, a, b). (s, b)) (r # ids))))"
    by (simp add: r u)
  finally show ?case .
qed

lemma inner_loop_take:
  assumes "startdatedict sid \<noteq> None" "\<forall>eid\<in>set eids. enddatedict eid \<noteq> None" "length acc < 10"
  shows "inner_loop startdatedict enddatedict sid eids acc =
           Inr (take 10 (acc @ filter (starts_after_end startdatedict enddatedict) (map (Pair sid) eids)))"
  using assms
proof (induction eids arbitrary: acc)
  case Nil
  then show ?case by simp
next
  case (Cons eid eids)
  let ?P = "starts_after_end startdatedict enddatedict"
  from Cons.prems obtain sdate edate where
    d: "startdatedict sid = Some sdate" "enddatedict eid = Some edate"
    by auto
  define acc' where "acc' = (if sdate > edate then acc @ [(sid, eid)] else acc)"
  have step: "inner_loop startdatedict enddatedict sid (eid # eids) acc =
      (if length acc' \<ge> 10 then Inr acc'
       else inner_loop startdatedict enddatedict sid eids acc')"
    by (simp add: thenE_def dict_get_def d acc'_def Let_def)
  have rhs: "acc @ filter ?P (map (Pair sid) (eid # eids)) = acc' @ filter ?P (map (Pair sid) eids)"
    by (simp add: acc'_def starts_after_end_def d)
  show ?case
  proof (cases "length acc' \<ge> 10")
    case True
    moreover have "length acc' \<le> 10" using Cons.prems(3) by (simp add: acc'_def)
    ultimately have "take 10 (acc' @ filter ?P (map (Pair sid) eids)) = acc'" by simp
    then show ?thesis using step True rhs by simp
  next
    case False
    then have "length acc' < 10" by simp
    from Cons.IH[OF Cons.prems(1) _ this] Cons.prems(2)
    have "inner_loop startdatedict enddatedict sid eids acc' =
        Inr (take 10 (acc' @ filter ?P (map (Pair sid) eids)))" by simp
    then show ?thesis using step False rhs by simp
  qed
qed

lemma outer_loop_take:
  assumes "\<forall>sid\<in>set sids. startdatedict sid \<noteq> None"
    and "\<forall>eid\<in>set serviceidlist. enddatedict eid \<noteq> None" and "length acc < 10"
  shows "outer_loop startdatedict enddatedict serviceidlist sids acc =
           Inr (take 10 (acc @ filter (starts_after_end startdatedict enddatedict)
                                  (List.product sids serviceidlist)))"
  using assms
proof (induction sids arbitrary: acc)
  case Nil
  then show ?case by simp
next
  case (Cons sid sids)
  let ?P = "starts_after_end startdatedict enddatedict"
  define A where "A = acc @ filter ?P (map (Pair sid) serviceidlist)"
  define B where "B = filter ?P (List.product sids serviceidlist)"
  have inner: "inner_loop startdatedict enddatedict sid serviceidlist acc = Inr (take 10 A)"
    unfolding A_def
    using inner_loop_take[of startdatedict sid serviceidlist enddatedict acc] Cons.prems by simp
  have step: "outer_loop startdatedict enddatedict serviceidlist (sid # sids) acc =
      (if length (take 10 A) \<ge> 10 then Inr (take 10 A)
       else outer_loop startdatedict enddatedict serviceidlist sids (take 10 A))"
    by (simp only: outer_loop.simps inner thenE_def sum.case)
  have rhs: "acc @ filter ?P (List.product (sid # sids) serviceidlist) = A @ B"
    by (simp add: A_def B_def)
  show ?case
  proof (cases "length (take 10 A) \<ge> 10")
    case True
    then have "10 \<le> length A" by simp
    then have "take 10 (A @ B) = take 10 A" by simp
    then show ?thesis using step True rhs by simp
  next
    case False
    then have l: "length A < 10" by simp
    then have t: "take 10 A = A" by simp
    from Cons.IH[of A] Cons.prems l have
      "outer_loop startdatedict enddatedict serviceidlist sids A = Inr (take 10 (A @ B))"
      by (simp add: B_def)
    then show ?thesis using step False t rhs by simp
  qed
qed

lemma collect_ids_init:
  "collect_ids ids ([], Map.empty, Map.empty) =
     (map fst ids, map_of (rev (map (\<lambda>(s, a, b). (s, a)) ids)),
      map_of (rev (map (\<lambda>(s, a, b). (s, b)) ids)))"
  by (simp add: collect_ids_eq)

lemma serviceidlist_of_eq: "serviceidlist_of ids = map fst ids"
  by (simp add: serviceidlist_of_def collect_ids_init)

lemma startdatedict_of_eq:
  "startdatedict_of ids = map_of (rev (map (\<lambda>(s, a, b). (s, a)) ids))"
  by (simp add: startdatedict_of_def collect_ids_init)

lemma enddatedict_of_eq:
  "enddatedict_of ids = map_of (rev (map (\<lambda>(s, a, b). (s, b)) ids))"
  by (simp add: enddatedict_of_def collect_ids_init)

lemma dicts_defined:
  assumes "sid \<in> set (map fst ids)"
  shows "startdatedict_of ids sid \<noteq> None \<and> enddatedict_of ids sid \<noteq> None"
proof -
  have "fst ` set (rev (map (\<lambda>(s, a, b). (s, a)) ids)) = fst ` set ids"
    and "fst ` set (rev (map (\<lambda>(s, a, b). (s, b)) ids)) = fst ` set ids"
    by force+
  then show ?thesis
    using assms by (simp add: startdatedict_of_eq enddatedict_of_eq map_of_eq_None_iff)
qed

lemma nonoverlapping_pairs_eq:
  "nonoverlapping_pairs ids =
     Inr (take 10 (filter (starts_after_end (startdatedict_of ids) (enddatedict_of ids))
                     (List.product (serviceidlist_of ids) (serviceidlist_of ids))))"
proof -
  have c: "collect_ids ids ([], Map.empty, Map.empty) =
      (serviceidlist_of ids, startdatedict_of ids, enddatedict_of ids)"
    by (simp add: serviceidlist_of_def startdatedict_of_def enddatedict_of_def)
  have "outer_loop (startdatedict_of ids) (enddatedict_of ids) (serviceidlist_of ids)
          (serviceidlist_of ids) [] =
        Inr (take 10 ([] @ filter (starts_after_end (startdatedict_of ids) (enddatedict_of ids))
                     (List.product (serviceidlist_of ids) (serviceidlist_of ids))))"
    by (rule outer_loop_take) (simp_all add: serviceidlist_of_eq dicts_defined)
  then show ?thesis by (simp add: nonoverlapping_pairs_def c)
qed



text \<open>When the calendar table exists the checker returns a string and raises nothing.\<close>

lemma check_nonoverlapping_dateranges_returns:
  "\<exists>w. check_nonoverlapping_dateranges x (Some ids) = Inr w"
  using nonoverlapping_pairs_eq[of ids]
  by (simp add: check_nonoverlapping_dateranges_def thenE_def)

text \<open>
  Claim C3 at the input on which the code departs from it. When the store has no table named
  calendar, the body that initialises \<^verbatim>\<open>overlapwarning\<close> is skipped and the final
  \<^verbatim>\<open>return overlapwarning\<close> reads a local variable that was never bound: the call raises
  UnboundLocalError instead of returning the empty string.
\<close>

theorem check_nonoverlapping_dateranges_no_calendar:
  "check_nonoverlapping_dateranges (sample_ext []) None = Inl UnboundLocalError"
  by (simp add: check_nonoverlapping_dateranges_def)

lemma last_row_dicts:
  "startdatedict_of ids sid = map_option fst (last_row ids sid)
   \<and> enddatedict_of ids sid = map_option snd (last_row ids sid)"
proof (induction ids rule: rev_induct)
  case Nil
  then show ?case by (simp add: startdatedict_of_eq enddatedict_of_eq last_row_def)
next
  case (snoc r ids)
  obtain s a b where r: "r = (s, a, b)" by (cases r)
  show ?case
  proof (cases "s = sid")
    case True
    then show ?thesis
      by (simp add: startdatedict_of_eq enddatedict_of_eq last_row_def r)
  next
    case False
    then show ?thesis using snoc.IH
      by (simp add: startdatedict_of_eq enddatedict_of_eq last_row_def r)
  qed
qed

text \<open>
  Claim C10. The id list has one entry per calendar row, so a service id that stands in
  several rows stands in it as many times; each dictionary holds for a service id the date of
  the last row that carries it. The recorded pairs are therefore decided by the last rows'
  dates, and a pair of ids is recorded once for each pair of rows that carry them: four rows
  of one service id whose last row starts after it ends fill the ten places with the same
  pair.
\<close>

theorem duplicate_service_ids_use_last_row:
  "serviceidlist_of ids = map fst ids
   \<and> startdatedict_of ids sid = map_option fst (last_row ids sid)
   \<and> enddatedict_of ids sid = map_option snd (last_row ids sid)
   \<and> nonoverlapping_pairs ids =
       Inr (take 10 (filter (starts_after_end (\<lambda>s. map_option fst (last_row ids s))
                                               (\<lambda>s. map_option snd (last_row ids s)))
                       (List.product (map fst ids) (map fst ids))))
   \<and> nonoverlapping_pairs
         [(''A'', ''20170101'', ''20171231''), (''A'', ''20170101'', ''20171231''),
          (''A'', ''20170101'', ''20171231''), (''A'', ''20180101'', ''20171231'')] =
       Inr (replicate 10 (''A'', ''A''))"
proof -
  have d: "startdatedict_of ids = (\<lambda>s. map_option fst (last_row ids s))"
    "enddatedict_of ids = (\<lambda>s. map_option snd (last_row ids s))"
    using last_row_dicts[of ids] by auto
  have e: "nonoverlapping_pairs
         [(''A'', ''20170101'', ''20171231''), (''A'', ''20170101'', ''20171231''),
          (''A'', ''20170101'', ''20171231''), (''A'', ''20180101'', ''20171231'')] =
       Inr (replicate 10 (''A'', ''A''))"
    by code_simp
  show ?thesis
    using nonoverlapping_pairs_eq[of ids] serviceidlist_of_eq[of ids] d e by simp
qed

theorem duplicate_service_ids_use_last_row_witness:
  "serviceidlist_of [(''A'', ''20170101'', ''20170601''), (''A'', ''20170301'', ''20170201'')] =
     [''A'', ''A'']
   \<and> startdatedict_of [(''A'', ''20170101'', ''20170601''), (''A'', ''20170301'', ''20170201'')]
        ''A'' = Some ''20170301''
   \<and> enddatedict_of [(''A'', ''20170101'', ''20170601''), (''A'', ''20170301'', ''20170201'')]
        ''A'' = Some ''20170201''
   \<and> nonoverlapping_pairs
        [(''A'', ''20170101'', ''20170601''), (''A'', ''20170301'', ''20170201'')] =
      Inr [(''A'', ''A''), (''A'', ''A''), (''A'', ''A''), (''A'', ''A'')]"
proof -
  let ?ids = "[(''A'', ''20170101'', ''20170601''), (''A'', ''20170301'', ''20170201'')]"
  have l: "last_row ?ids ''A'' = Some (''20170301'', ''20170201'')"
    by (simp add: last_row_def)
  have r: "take 10 (filter (starts_after_end (\<lambda>s. map_option fst (last_row ?ids s))
                                               (\<lambda>s. map_option snd (last_row ?ids s)))
                       (List.product (map fst ?ids) (map fst ?ids))) =
           [(''A'', ''A''), (''A'', ''A''), (''A'', ''A''), (''A'', ''A'')]"
    by (simp add: starts_after_end_def l)
  from duplicate_service_ids_use_last_row[of ?ids "''A''"]
  show ?thesis unfolding r l by simp
qed

section \<open>Properties of the time check\<close>

lemmas sample_eval =
  sample_ext_def strip_def isspace_def isdigit_def check_time_str_def re_end_def
  str2sec_hms_def float_decimal_def decimal_value_def nat_of_digits_def digit_val_def Let_def

text \<open>The samples on the values the spec quotes.\<close>

lemma str2sec_hms_examples:
  "str2sec_hms ''08:05:00'' = 29100" "str2sec_hms ''25:00:00'' = 90000"
  by (simp_all add: str2sec_hms_def nat_of_digits_def digit_val_def Let_def)

lemma float_decimal_examples:
  "float_decimal ''100'' = Some (Finite 100)" "float_decimal ''abc'' = None"
  by (simp_all add: float_decimal_def decimal_value_def strip_def isspace_def isdigit_def
      nat_of_digits_def digit_val_def Let_def)

lemma strip_last: "strip s = [] \<or> \<not> isspace (last (strip s))"
proof (cases "strip s = []")
  case True then show ?thesis by simp
next
  case False
  then have ne: "dropWhile isspace (rev (dropWhile isspace s)) \<noteq> []" by (simp add: strip_def)
  have "last (strip s) = hd (dropWhile isspace (rev (dropWhile isspace s)))"
    using ne by (simp add: strip_def last_rev)
  then show ?thesis using hd_dropWhile[OF ne] by simp
qed

lemma re_mmss_shape:
  "re_mmss u \<longleftrightarrow> (\<exists>m s nl. u = '':'' @ m @ '':'' @ s @ nl \<and> length m = 2 \<and> length s = 2
      \<and> list_all isdigit (m @ s) \<and> (nl = [] \<or> nl = [CHR 0x0A]))"
  (is "?L \<longleftrightarrow> ?R")
proof
  assume ?L
  then obtain m1 m2 s1 s2 r where
    u: "u = CHR '':'' # m1 # m2 # CHR '':'' # s1 # s2 # r" and d: "isdigit m1" "isdigit m2" "isdigit s1" "isdigit s2" "re_end r"
    by (auto elim!: re_mmss.elims)
  then have "u = '':'' @ [m1, m2] @ '':'' @ [s1, s2] @ r \<and> length [m1, m2] = 2 \<and> length [s1, s2] = 2
      \<and> list_all isdigit ([m1, m2] @ [s1, s2]) \<and> (r = [] \<or> r = [CHR 0x0A])"
    by (simp add: re_end_def)
  then show ?R by blast
next
  assume ?R
  then obtain m s nl where h: "u = '':'' @ m @ '':'' @ s @ nl" "length m = 2" "length s = 2"
      "list_all isdigit (m @ s)" "nl = [] \<or> nl = [CHR 0x0A]" by blast
  from h(2) obtain m1 m2 where m: "m = [m1, m2]"
    by (auto simp: length_Suc_conv numeral_2_eq_2)
  from h(3) obtain s1 s2 where s: "s = [s1, s2]"
    by (auto simp: length_Suc_conv numeral_2_eq_2)
  show ?L using h(1,4,5) by (auto simp: m s re_end_def)
qed

lemma re_hours_shape:
  "re_hours u \<longleftrightarrow> (\<exists>h r. u = h @ r \<and> (length h = 1 \<or> length h = 2) \<and> list_all isdigit h \<and> re_mmss r)"
  (is "?L \<longleftrightarrow> ?R")
proof
  assume ?L
  then obtain h1 h2 r where u: "u = h1 # h2 # r" and d: "isdigit h1" "(isdigit h2 \<and> re_mmss r) \<or> re_mmss (h2 # r)"
    by (auto elim!: re_hours.elims)
  from d(2) show ?R
  proof
    assume "isdigit h2 \<and> re_mmss r"
    then have "u = [h1, h2] @ r \<and> (length [h1, h2] = 1 \<or> length [h1, h2] = 2) \<and> list_all isdigit [h1, h2] \<and> re_mmss r"
      using u d(1) by simp
    then show ?R by blast
  next
    assume "re_mmss (h2 # r)"
    then have "u = [h1] @ (h2 # r) \<and> (length [h1] = 1 \<or> length [h1] = 2) \<and> list_all isdigit [h1] \<and> re_mmss (h2 # r)"
      using u d(1) by simp
    then show ?R by blast
  qed
next
  assume ?R
  then obtain h r where h: "u = h @ r" "length h = 1 \<or> length h = 2" "list_all isdigit h" "re_mmss r" by blast
  from h(4) obtain c r' where r: "r = c # r'" by (cases r) auto
  from h(2) show ?L
  proof
    assume "length h = 1"
    then obtain h1 where "h = [h1]" by (auto simp: length_Suc_conv)
    then show ?L using h r by simp
  next
    assume "length h = 2"
    then obtain h1 h2 where "h = [h1, h2]" by (auto simp: length_Suc_conv numeral_2_eq_2)
    then show ?L using h r by simp
  qed
qed

lemma re_hours_full_shape:
  "re_hours u \<longleftrightarrow>
     (\<exists>h m s nl. u = h @ '':'' @ m @ '':'' @ s @ nl
        \<and> (length h = 1 \<or> length h = 2) \<and> length m = 2 \<and> length s = 2
        \<and> list_all isdigit (h @ m @ s) \<and> (nl = [] \<or> nl = [CHR 0x0A]))"
  unfolding re_hours_shape re_mmss_shape
  by (rule iffI; clarsimp; blast)

lemma check_time_str_shape:
  "check_time_str t \<longleftrightarrow>
     (\<exists>sg h m s nl. t = sg @ h @ '':'' @ m @ '':'' @ s @ nl \<and> (sg = [] \<or> sg = ''-'')
        \<and> (length h = 1 \<or> length h = 2) \<and> length m = 2 \<and> length s = 2
        \<and> list_all isdigit (h @ m @ s) \<and> (nl = [] \<or> nl = [CHR 0x0A]))"
  (is "?L \<longleftrightarrow> ?R")
proof
  assume L: ?L
  then obtain c r where t: "t = c # r" by (cases t) (auto simp: check_time_str_def)
  from L t have "(c = CHR ''-'' \<and> re_hours r) \<or> re_hours t"
    by (simp add: check_time_str_def)
  then show ?R
  proof
    assume a: "c = CHR ''-'' \<and> re_hours r"
    then obtain h m s nl where "r = h @ '':'' @ m @ '':'' @ s @ nl"
        "length h = 1 \<or> length h = 2" "length m = 2" "length s = 2"
        "list_all isdigit (h @ m @ s)" "nl = [] \<or> nl = [CHR 0x0A]"
      unfolding re_hours_full_shape by blast
    then have "t = ''-'' @ h @ '':'' @ m @ '':'' @ s @ nl \<and> (''-'' = [] \<or> ''-'' = ''-'')
        \<and> (length h = 1 \<or> length h = 2) \<and> length m = 2 \<and> length s = 2
        \<and> list_all isdigit (h @ m @ s) \<and> (nl = [] \<or> nl = [CHR 0x0A])"
      using t a by simp
    then show ?R by blast
  next
    assume "re_hours t"
    then obtain h m s nl where "t = h @ '':'' @ m @ '':'' @ s @ nl"
        "length h = 1 \<or> length h = 2" "length m = 2" "length s = 2"
        "list_all isdigit (h @ m @ s)" "nl = [] \<or> nl = [CHR 0x0A]"
      unfolding re_hours_full_shape by blast
    then have "t = [] @ h @ '':'' @ m @ '':'' @ s @ nl \<and> ([] = ([]::string) \<or> [] = ''-'')
        \<and> (length h = 1 \<or> length h = 2) \<and> length m = 2 \<and> length s = 2
        \<and> list_all isdigit (h @ m @ s) \<and> (nl = [] \<or> nl = [CHR 0x0A])"
      by simp
    then show ?R by blast
  qed
next
  assume ?R
  then obtain sg h m s nl where R: "t = sg @ h @ '':'' @ m @ '':'' @ s @ nl" "sg = [] \<or> sg = ''-''"
        "length h = 1 \<or> length h = 2" "length m = 2" "length s = 2"
        "list_all isdigit (h @ m @ s)" "nl = [] \<or> nl = [CHR 0x0A]" by blast
  have rh: "re_hours (h @ '':'' @ m @ '':'' @ s @ nl)"
    unfolding re_hours_full_shape using R by blast
  from R(3) obtain c h' where h: "h = c # h'" by (cases h) auto
  from R(2) show ?L
  proof
    assume "sg = []"
    then show ?L using rh R(1) h by (simp add: check_time_str_def)
  next
    assume "sg = ''-''"
    then show ?L using rh R(1) by (simp add: check_time_str_def)
  qed
qed

text \<open>On a stripped field the final newline of \<^verbatim>\<open>$\<close> cannot occur.\<close>

lemma check_time_str_strip_shape:
  "check_time_str (strip raw) \<longleftrightarrow>
     (\<exists>sg h m s. strip raw = sg @ h @ '':'' @ m @ '':'' @ s \<and> (sg = [] \<or> sg = ''-'')
        \<and> (length h = 1 \<or> length h = 2) \<and> length m = 2 \<and> length s = 2
        \<and> list_all isdigit (h @ m @ s))"
  (is "?L \<longleftrightarrow> ?R")
proof
  assume ?L
  then obtain sg h m s nl where R: "strip raw = sg @ h @ '':'' @ m @ '':'' @ s @ nl" "sg = [] \<or> sg = ''-''"
        "length h = 1 \<or> length h = 2" "length m = 2" "length s = 2"
        "list_all isdigit (h @ m @ s)" "nl = [] \<or> nl = [CHR 0x0A]"
    unfolding check_time_str_shape by blast
  have "nl = []"
  proof (rule ccontr)
    assume "nl \<noteq> []"
    then have nl: "nl = [CHR 0x0A]" using R(7) by simp
    then have "last (strip raw) = CHR 0x0A" using R(1) by simp
    moreover have "strip raw \<noteq> []" using R(1) nl by simp
    ultimately show False using strip_last[of raw] by (simp add: isspace_def)
  qed
  then show ?R using R by auto
next
  assume ?R
  then obtain sg h m s where R: "strip raw = sg @ h @ '':'' @ m @ '':'' @ s" "sg = [] \<or> sg = ''-''"
        "length h = 1 \<or> length h = 2" "length m = 2" "length s = 2"
        "list_all isdigit (h @ m @ s)" by blast
  then have "strip raw = sg @ h @ '':'' @ m @ '':'' @ s @ [] \<and> (sg = [] \<or> sg = ''-'')
        \<and> (length h = 1 \<or> length h = 2) \<and> length m = 2 \<and> length s = 2
        \<and> list_all isdigit (h @ m @ s) \<and> ([] = ([]::string) \<or> [] = [CHR 0x0A])" by simp
  then show ?L unfolding check_time_str_shape by blast
qed

lemma convert_time_value_eq:
  assumes "idx < length col_names"
  shows "convert_time_value x col_names fname GTFSdir idx raw =
     (case time_value x raw of
        Some v \<Rightarrow> Inr v
      | None \<Rightarrow>
          Inl (CustomError
                (if strip raw = [] then empty_time_msg GTFSdir
                 else invalid_value_msg (col_names ! idx) (path_join x GTFSdir fname) (strip raw)
                      @ ''.'')))"
  using assms
  by (simp add: convert_time_value_def time_value_def getitem_def Let_def split: option.splits)

lemma convert_loop_ok:
  assumes "\<forall>idx\<in>set idxs. idx < length row \<and> idx < length col_names"
    and "\<forall>idx\<in>set idxs. time_value x (row ! idx) \<noteq> None"
  shows "\<exists>out. convert_loop x col_names fname GTFSdir row idxs out_row = Inr out
           \<and> length out = length out_row
           \<and> (\<forall>j<length out_row. out ! j =
                 (if j \<in> set idxs
                  then (case time_value x (row ! j) of Some v \<Rightarrow> v | None \<Rightarrow> PyStr (row ! j))
                  else out_row ! j))"
  using assms
proof (induction idxs arbitrary: out_row)
  case Nil
  then show ?case by simp
next
  case (Cons idx idxs)
  from Cons.prems obtain v where v: "time_value x (row ! idx) = Some v" by auto
  from Cons.prems have i: "idx < length row" "idx < length col_names" by auto
  have step: "convert_loop x col_names fname GTFSdir row (idx # idxs) out_row =
      convert_loop x col_names fname GTFSdir row idxs (out_row[idx := v])"
    using v i by (simp add: getitem_def convert_time_value_eq)
  from Cons.prems have
    "\<forall>i\<in>set idxs. i < length row \<and> i < length col_names"
    "\<forall>i\<in>set idxs. time_value x (row ! i) \<noteq> None" by simp_all
  from Cons.IH[OF this, of "out_row[idx := v]"] obtain out where
    out: "convert_loop x col_names fname GTFSdir row idxs (out_row[idx := v]) = Inr out"
      "length out = length (out_row[idx := v])"
      "\<forall>j<length (out_row[idx := v]). out ! j =
         (if j \<in> set idxs
          then (case time_value x (row ! j) of Some v \<Rightarrow> v | None \<Rightarrow> PyStr (row ! j))
          else (out_row[idx := v]) ! j)" by blast
  have "\<forall>j<length out_row. out ! j =
         (if j \<in> set (idx # idxs)
          then (case time_value x (row ! j) of Some v \<Rightarrow> v | None \<Rightarrow> PyStr (row ! j))
          else out_row ! j)"
    using out(3) v by (auto simp: nth_list_update)
  then show ?case using step out(1,2) by simp
qed

lemma convert_loop_fails:
  assumes "\<forall>idx\<in>set idxs. idx < length row \<and> idx < length col_names"
    and "\<exists>idx\<in>set idxs. time_value x (row ! idx) = None"
  shows "\<exists>msg. convert_loop x col_names fname GTFSdir row idxs out_row = Inl (CustomError msg)"
  using assms
proof (induction idxs arbitrary: out_row)
  case Nil
  then show ?case by simp
next
  case (Cons idx idxs)
  from Cons.prems have i: "idx < length row" "idx < length col_names" by auto
  show ?case
  proof (cases "time_value x (row ! idx)")
    case None
    then show ?thesis using i by (simp add: getitem_def convert_time_value_eq)
  next
    case (Some v)
    then have step: "convert_loop x col_names fname GTFSdir row (idx # idxs) out_row =
        convert_loop x col_names fname GTFSdir row idxs (out_row[idx := v])"
      using i by (simp add: getitem_def convert_time_value_eq)
    from Cons.prems Some have
      "\<forall>i\<in>set idxs. i < length row \<and> i < length col_names"
      "\<exists>i\<in>set idxs. time_value x (row ! i) = None" by auto
    from Cons.IH[OF this] step show ?thesis by simp
  qed
qed

lemma list_index_bound: "list_index xs c = Some i \<Longrightarrow> i < length xs \<and> xs ! i = c"
  by (induction xs arbitrary: i) (auto split: if_splits)

lemma index_bound: "index xs c = Inr i \<Longrightarrow> i < length xs \<and> xs ! i = c"
  by (auto simp: index_def list_index_bound split: option.splits)

lemma mapE_index_bound:
  "mapE (index xs) cs = Inr idxs \<Longrightarrow> \<forall>idx\<in>set idxs. idx < length xs"
proof (induction cs arbitrary: idxs)
  case Nil
  then show ?case by simp
next
  case (Cons c cs)
  then show ?case
    by (auto split: sum.splits dest: index_bound)
qed

text \<open>
  Claim C5. For a stop_times or frequencies row that has a field at each time column: when
  every time field has a value, the row function returns the row with exactly the time
  fields replaced by their values; when some time field has none, it raises the abort error.
  The value of a field is decided on the stripped text: the seconds that \<^verbatim>\<open>hms.str2sec\<close>
  gives it when it has the shape of an optional minus sign, one or two hour digits, a colon,
  two digits, a colon and two digits (the hours are not bounded); no value when it is empty;
  and otherwise its float when \<^verbatim>\<open>float()\<close> accepts it, no value when it does not.
\<close>

theorem smarter_convert_times_converts_or_aborts:
  assumes "mapE (index col_names) time_columns = Inr idxs"
    and "\<forall>idx\<in>set idxs. idx < length row"
  shows "smarter_convert_times x col_names fname GTFSdir time_columns =
           Inr (convert_time_columns x col_names fname GTFSdir idxs)
       \<and> ((\<forall>idx\<in>set idxs. time_value x (row ! idx) \<noteq> None) \<longrightarrow>
            convert_time_columns x col_names fname GTFSdir idxs row =
              Inr (map (\<lambda>i. if i \<in> set idxs
                             then (case time_value x (row ! i) of
                                     Some v \<Rightarrow> v | None \<Rightarrow> PyStr (row ! i))
                             else PyStr (row ! i)) [0..<length row]))
       \<and> ((\<exists>idx\<in>set idxs. time_value x (row ! idx) = None) \<longrightarrow>
            (\<exists>msg. convert_time_columns x col_names fname GTFSdir idxs row =
                     Inl (CustomError msg)))
       \<and> time_value x raw =
           (if check_time_str (strip raw) then Some (PyInt (str2sec x (strip raw)))
            else if strip raw = [] then None
            else map_option PyFloat (py_float x (strip raw)))
       \<and> (check_time_str (strip raw) \<longleftrightarrow>
            (\<exists>sg h m s. strip raw = sg @ h @ '':'' @ m @ '':'' @ s \<and> (sg = [] \<or> sg = ''-'')
               \<and> (length h = 1 \<or> length h = 2) \<and> length m = 2 \<and> length s = 2
               \<and> list_all isdigit (h @ m @ s)))"
proof -
  have bounds: "\<forall>idx\<in>set idxs. idx < length row \<and> idx < length col_names"
    using mapE_index_bound[OF assms(1)] assms(2) by blast
  have s: "smarter_convert_times x col_names fname GTFSdir time_columns =
           Inr (convert_time_columns x col_names fname GTFSdir idxs)"
    using assms(1) by (simp add: smarter_convert_times_def)
  let ?f = "\<lambda>i. if i \<in> set idxs
                 then (case time_value x (row ! i) of Some v \<Rightarrow> v | None \<Rightarrow> PyStr (row ! i))
                 else PyStr (row ! i)"
  have a: "convert_time_columns x col_names fname GTFSdir idxs row = Inr (map ?f [0..<length row])"
    if ok: "\<forall>idx\<in>set idxs. time_value x (row ! idx) \<noteq> None"
  proof -
    from convert_loop_ok[OF bounds ok, of fname GTFSdir "map PyStr row"] obtain out where
      out: "convert_loop x col_names fname GTFSdir row idxs (map PyStr row) = Inr out"
        "length out = length (map PyStr row)"
        "\<forall>j<length (map PyStr row). out ! j =
           (if j \<in> set idxs
            then (case time_value x (row ! j) of Some v \<Rightarrow> v | None \<Rightarrow> PyStr (row ! j))
            else map PyStr row ! j)" by blast
    have "out = map ?f [0..<length row]"
      by (rule nth_equalityI) (use out(2,3) in \<open>auto split: option.splits\<close>)
    then show ?thesis using out(1) by (simp add: convert_time_columns_def)
  qed
  have b: "\<exists>msg. convert_time_columns x col_names fname GTFSdir idxs row = Inl (CustomError msg)"
    if bad: "\<exists>idx\<in>set idxs. time_value x (row ! idx) = None"
    using convert_loop_fails[OF bounds bad] by (simp add: convert_time_columns_def)
  have c: "time_value x raw =
           (if check_time_str (strip raw) then Some (PyInt (str2sec x (strip raw)))
            else if strip raw = [] then None
            else map_option PyFloat (py_float x (strip raw)))"
    by (simp add: time_value_def Let_def)
  from s a b c check_time_str_strip_shape[of raw] show ?thesis by blast
qed


theorem smarter_convert_times_converts_or_aborts_witness:
  "smarter_convert_times (sample_ext [])
       [''trip_id'', ''arrival_time'', ''departure_time'', ''stop_id'', ''stop_sequence'']
       ''stop_times.txt'' ''cta'' [''arrival_time'', ''departure_time''] =
     Inr (convert_time_columns (sample_ext [])
       [''trip_id'', ''arrival_time'', ''departure_time'', ''stop_id'', ''stop_sequence'']
       ''stop_times.txt'' ''cta'' [1, 2])
   \<and> convert_time_columns (sample_ext [])
       [''trip_id'', ''arrival_time'', ''departure_time'', ''stop_id'', ''stop_sequence'']
       ''stop_times.txt'' ''cta'' [1, 2] [''t1'', ''25:00:00'', '' 100'', ''s1'', ''1''] =
     Inr [PyStr ''t1'', PyInt 90000, PyFloat (Finite 100), PyStr ''s1'', PyStr ''1'']"
proof -
  let ?cols = "[''trip_id'', ''arrival_time'', ''departure_time'', ''stop_id'', ''stop_sequence'']"
  let ?row = "[''t1'', ''25:00:00'', '' 100'', ''s1'', ''1'']"
  have i: "mapE (index ?cols) [''arrival_time'', ''departure_time''] = Inr [1, 2]"
    by (simp add: index_def)
  have l: "\<forall>idx\<in>set [1, 2]. idx < length ?row" by simp
  have t1: "time_value (sample_ext []) ''25:00:00'' = Some (PyInt 90000)"
    by (simp add: time_value_def sample_eval)
  have t2: "time_value (sample_ext []) '' 100'' = Some (PyFloat (Finite 100))"
    by (simp add: time_value_def sample_eval)
  have ok: "\<forall>idx\<in>set [1, 2]. time_value (sample_ext []) (?row ! idx) \<noteq> None"
    using t1 t2 by simp
  have r: "map (\<lambda>i. if i \<in> set [1, 2]
                     then (case time_value (sample_ext []) (?row ! i) of
                             Some v \<Rightarrow> v | None \<Rightarrow> PyStr (?row ! i))
                     else PyStr (?row ! i)) [0..<length ?row] =
      [PyStr ''t1'', PyInt 90000, PyFloat (Finite 100), PyStr ''s1'', PyStr ''1'']"
    using t1 t2 by (simp add: upt_rec)
  from smarter_convert_times_converts_or_aborts[OF i l, of "sample_ext []" "''stop_times.txt''" "''cta''"] ok
  show ?thesis unfolding r by blast
qed

text \<open>An empty time field and a field that is neither a time nor a number abort the import.\<close>

lemma convert_time_columns_empty_field: "convert_time_columns (sample_ext [])
       [''trip_id'', ''arrival_time'', ''departure_time'', ''stop_id'', ''stop_sequence'']
       ''stop_times.txt'' ''cta'' [1, 2] [''t1'', [], ''100'', ''s1'', ''1''] =
     Inl (CustomError (empty_time_msg ''cta''))"
  by (simp add: convert_time_columns_def getitem_def convert_time_value_def sample_eval)

lemma convert_time_columns_invalid_field: "convert_time_columns (sample_ext [])
       [''trip_id'', ''arrival_time'', ''departure_time'', ''stop_id'', ''stop_sequence'']
       ''stop_times.txt'' ''cta'' [1, 2] [''t1'', ''8h05'', ''100'', ''s1'', ''1''] =
     Inl (CustomError (invalid_value_msg ''arrival_time'' ''cta/stop_times.txt'' ''8h05'' @ ''.''))"
  by (simp add: convert_time_columns_def getitem_def convert_time_value_def sample_eval)

section \<open>Properties of the latitude and longitude check\<close>

lemma fle_interval:
  "(fle (Finite lo) v \<and> fle v (Finite hi)) = in_closed_interval lo hi v"
  by (cases v) (simp_all add: in_closed_interval_def)

lemma latlon_msgs_name_stop:
  \<open>prefix (''stop_id "'' @ stop_id @ ''"'') (latlon_nonnumeric_msg stop_id fname which val)\<close>
  \<open>prefix (''stop_id "'' @ stop_id @ ''"'') (latlon_range_msg stop_id fname rng which val)\<close>
  by (simp_all add: latlon_nonnumeric_msg_def latlon_range_msg_def)

lemma check_latlon_cols_eq:
  assumes "index col_names ''stop_id'' = Inr i" "index col_names ''stop_lat'' = Inr j"
    "index col_names ''stop_lon'' = Inr k" "i < length row" "j < length row" "k < length row"
  shows "check_latlon_cols x col_names fname row =
     (case py_float x (row ! j) of
        None \<Rightarrow> Inl (CustomError (latlon_nonnumeric_msg (row ! i) fname ''stop_lat'' (row ! j)))
      | Some a \<Rightarrow>
         (case py_float x (row ! k) of
            None \<Rightarrow> Inl (CustomError (latlon_nonnumeric_msg (row ! i) fname ''stop_lon'' (row ! k)))
          | Some b \<Rightarrow>
             if \<not> in_closed_interval (- 90) 90 a
             then Inl (CustomError (latlon_range_msg (row ! i) fname ''(-90, 90)'' ''stop_lat'' (row ! j)))
             else if \<not> in_closed_interval (- 180) 180 b
             then Inl (CustomError (latlon_range_msg (row ! i) fname ''(-180, 180)'' ''stop_lon'' (row ! k)))
             else Inr row))"
  using assms
  by (simp add: check_latlon_cols_def thenE_def getitem_def fle_interval split: option.splits)

text \<open>
  Claim C6. For a stops row that has the fields stop_id, stop_lat and stop_lon, the check
  raises the abort error exactly when it is not the case that both coordinates parse as
  floats with the latitude within [-90, 90] and the longitude within [-180, 180]; otherwise
  it returns the row as it is. The check raises no other error on such a row, and every
  message starts by naming the row's stop_id between double quotes.
\<close>

theorem check_latlon_cols_aborts_iff:
  assumes "index col_names ''stop_id'' = Inr i" "index col_names ''stop_lat'' = Inr j"
    "index col_names ''stop_lon'' = Inr k" "i < length row" "j < length row" "k < length row"
  shows "((\<exists>msg. check_latlon_cols x col_names fname row = Inl (CustomError msg)) \<longleftrightarrow>
            \<not> (\<exists>a b. py_float x (row ! j) = Some a \<and> py_float x (row ! k) = Some b
                  \<and> in_closed_interval (- 90) 90 a \<and> in_closed_interval (- 180) 180 b))
       \<and> (check_latlon_cols x col_names fname row = Inr row \<longleftrightarrow>
            (\<exists>a b. py_float x (row ! j) = Some a \<and> py_float x (row ! k) = Some b
                  \<and> in_closed_interval (- 90) 90 a \<and> in_closed_interval (- 180) 180 b))
       \<and> (\<forall>e. check_latlon_cols x col_names fname row = Inl e \<longrightarrow>
            (\<exists>msg. e = CustomError msg \<and> prefix (''stop_id '' @ [CHR 0x22] @ row ! i @ [CHR 0x22]) msg))"
proof -
  note eq = check_latlon_cols_eq[OF assms, of x fname]
  have a: "(\<exists>msg. check_latlon_cols x col_names fname row = Inl (CustomError msg)) \<longleftrightarrow>
            \<not> (\<exists>a b. py_float x (row ! j) = Some a \<and> py_float x (row ! k) = Some b
                  \<and> in_closed_interval (- 90) 90 a \<and> in_closed_interval (- 180) 180 b)"
    unfolding eq by (auto split: option.splits)
  have b: "check_latlon_cols x col_names fname row = Inr row \<longleftrightarrow>
            (\<exists>a b. py_float x (row ! j) = Some a \<and> py_float x (row ! k) = Some b
                  \<and> in_closed_interval (- 90) 90 a \<and> in_closed_interval (- 180) 180 b)"
    unfolding eq by (auto split: option.splits)
  have c: "\<forall>e. check_latlon_cols x col_names fname row = Inl e \<longrightarrow>
            (\<exists>msg. e = CustomError msg \<and> prefix (''stop_id '' @ [CHR 0x22] @ row ! i @ [CHR 0x22]) msg)"
    unfolding eq using latlon_msgs_name_stop[of "row ! i" fname]
    by (auto split: option.splits if_splits)
  from a b c show ?thesis by blast
qed

theorem check_latlon_cols_aborts_iff_witness:
  "check_latlon_cols (sample_ext []) [''stop_id'', ''stop_name'', ''stop_lat'', ''stop_lon'']
      ''stops.txt'' [''1518'', ''Main St'', ''95.0'', ''-87.5''] =
     Inl (CustomError (latlon_range_msg ''1518'' ''stops.txt'' ''(-90, 90)'' ''stop_lat'' ''95.0''))
   \<and> check_latlon_cols (sample_ext []) [''stop_id'', ''stop_name'', ''stop_lat'', ''stop_lon'']
      ''stops.txt'' [''1518'', ''Main St'', ''40.0'', ''-87.5''] =
     Inr [''1518'', ''Main St'', ''40.0'', ''-87.5'']"
proof -
  let ?cols = "[''stop_id'', ''stop_name'', ''stop_lat'', ''stop_lon'']"
  let ?good = "[''1518'', ''Main St'', ''40.0'', ''-87.5'']"
  have i: "index ?cols ''stop_id'' = Inr 0" "index ?cols ''stop_lat'' = Inr 2"
    "index ?cols ''stop_lon'' = Inr 3"
    by (simp_all add: index_def)
  have l: "0 < length ?good" "2 < length ?good" "3 < length ?good" by simp_all
  have f: "py_float (sample_ext []) ''40.0'' = Some (Finite 40)"
    "py_float (sample_ext []) ''-87.5'' = Some (Finite (- 175 / 2))"
    by (simp_all add: sample_eval)
  have bad: "check_latlon_cols (sample_ext []) ?cols ''stops.txt''
      [''1518'', ''Main St'', ''95.0'', ''-87.5''] =
     Inl (CustomError (latlon_range_msg ''1518'' ''stops.txt'' ''(-90, 90)'' ''stop_lat'' ''95.0''))"
    by (simp add: check_latlon_cols_def thenE_def getitem_def index_def sample_eval)
  have "\<exists>a b. py_float (sample_ext []) (?good ! 2) = Some a
      \<and> py_float (sample_ext []) (?good ! 3) = Some b
      \<and> in_closed_interval (- 90) 90 a \<and> in_closed_interval (- 180) 180 b"
    using f by (simp add: in_closed_interval_def)
  with check_latlon_cols_aborts_iff[OF i l, of "sample_ext []" "''stops.txt''"]
  have "check_latlon_cols (sample_ext []) ?cols ''stops.txt'' ?good = Inr ?good" by blast
  with bad show ?thesis by blast
qed

section \<open>Rows of the wrong width\<close>


text \<open>
  In a table that has no validator of its own (trips, routes), a row of the wrong width
  reaches that check, and raises the abort error, exactly when it has a field at every
  identifier column; a row that ends before an identifier column raises IndexError in the
  labeller.
\<close>

lemma process_row_wrong_width:
  assumes "length row \<noteq> length columns"
  shows "(\<forall>i<length columns. is_id_field (columns ! i) \<longrightarrow> i < length row) \<Longrightarrow>
           \<exists>out. length out = length row \<and>
             process_row (\<lambda>r. Inr (map PyStr r)) (make_add_agency_labels label columns)
               (drop_fields x tablename columns cols) (Inr row) =
             Inl (CustomError (wrong_fields_msg x tablename columns out))"
    and "(\<exists>i<length columns. is_id_field (columns ! i) \<and> \<not> i < length row) \<Longrightarrow>
           process_row (\<lambda>r. Inr (map PyStr r)) (make_add_agency_labels label columns)
             (drop_fields x tablename columns cols) (Inr row) = Inl IndexError"
proof -
  let ?s = "label_columns columns"
  let ?sv = "re_sub_non_alnum label"
  let ?row = "map PyStr row"
  have p: "process_row (\<lambda>r. Inr (map PyStr r)) (make_add_agency_labels label columns)
             (drop_fields x tablename columns cols) (Inr row) =
           thenE (add_labels_loop ?sv ?row ?s ?row) (drop_fields x tablename columns cols)"
    by (simp add: process_row_def thenE_def make_add_agency_labels_def add_labels_def)
  {
    assume "\<forall>i<length columns. is_id_field (columns ! i) \<longrightarrow> i < length row"
    then have "\<forall>idx\<in>set ?s. idx < length ?row \<and> (\<exists>v. ?row ! idx = PyStr v)"
      by (simp add: set_label_columns)
    from add_labels_loop_nth[OF this, of ?sv ?row] obtain out where
      out: "add_labels_loop ?sv ?row ?s ?row = Inr out" "length out = length ?row" by blast
    then have "length out \<noteq> length columns" using assms by simp
    then have "thenE (add_labels_loop ?sv ?row ?s ?row) (drop_fields x tablename columns cols) =
        Inl (CustomError (wrong_fields_msg x tablename columns out))"
      using out(1) by (simp add: thenE_def drop_fields_def)
    then show "\<exists>out. length out = length row \<and>
             process_row (\<lambda>r. Inr (map PyStr r)) (make_add_agency_labels label columns)
               (drop_fields x tablename columns cols) (Inr row) =
             Inl (CustomError (wrong_fields_msg x tablename columns out))"
      using p out(2) by auto
  }
  {
    assume "\<exists>i<length columns. is_id_field (columns ! i) \<and> \<not> i < length row"
    then have a: "\<exists>idx\<in>set ?s. \<not> idx < length ?row"
      by (auto simp: set_label_columns)
    have b: "\<forall>idx\<in>set ?s. idx < length ?row \<longrightarrow> (\<exists>v. ?row ! idx = PyStr v)" by simp
    from add_labels_loop_IndexError[OF a b, of ?sv ?row]
    show "process_row (\<lambda>r. Inr (map PyStr r)) (make_add_agency_labels label columns)
             (drop_fields x tablename columns cols) (Inr row) = Inl IndexError"
      using p by (simp add: thenE_def)
  }
qed

text \<open>The stages of the loader on a trips file whose only data row is one field short.\<close>

lemma short_trips_reader_rows:
  "reader_rows
     (sample_ext [(''cta/trips.txt'',
                   [[''route_id'', ''service_id'', ''trip_id''], [''r1'', ''s1'']])])
     ''cta/trips.txt'' =
   [Inr [''route_id'', ''service_id'', ''trip_id''], Inr [''r1'', ''s1'']]"
  by (simp add: reader_rows_def sample_ext_def strip_def isspace_def)

lemma trips_table_of_fname: "table_of_fname (sample_ext fs) ''cta/trips.txt'' = ''trips''"
  by (simp add: table_of_fname_def sample_ext_def posix_basename_def endswith_def)

lemma trips_required_fields:
  "check_for_required_fields ''trips'' [''route_id'', ''service_id'', ''trip_id''] ''cta'' =
     Inr ()"
  by (simp add: check_for_required_fields_def schema_of_def sql_schema_def)

lemma trips_row_validator:
  "row_validator x ''trips'' cols fname lbl = Inr (\<lambda>row. Inr (map PyStr row))"
  by (simp add: row_validator_def)

lemma trips_labeller:
  "make_add_agency_labels ''cta'' [''route_id'', ''service_id'', ''trip_id''] =
     add_labels ''cta'' [0, Suc 0, Suc (Suc 0)]"
  by (simp add: make_add_agency_labels_def re_sub_non_alnum_def isalnum_def label_columns_def
      is_id_field_def endswith_def enumerate_eq_zip upt_rec)

lemma trips_columns_filter:
  "make_remove_extra_fields x ''trips'' [''route_id'', ''service_id'', ''trip_id''] =
     Inr (drop_fields x ''trips'' [''route_id'', ''service_id'', ''trip_id''] [])"
  by (simp add: make_remove_extra_fields_def schema_of_def sql_schema_def extra_columns_def
      enumerate_eq_zip upt_rec)

lemma trips_header_filtered:
  "drop_fields x ''trips'' [''route_id'', ''service_id'', ''trip_id''] []
     (map PyStr [''route_id'', ''service_id'', ''trip_id'']) =
   Inr (map PyStr [''route_id'', ''service_id'', ''trip_id''])"
  by (simp add: drop_fields_def)

lemma trips_short_row_labelled:
  "add_labels ''cta'' [0, Suc 0, Suc (Suc 0)] [PyStr ''r1'', PyStr ''s1''] = Inl IndexError"
  by (simp add: add_labels_def strip_def isspace_def)

text \<open>
  Claim C7 at an input on which the code departs from it. The width check stands in the last
  stage of the row pipeline, after the labeller, which indexes the row at every identifier
  column. In a trips file with the header \<^verbatim>\<open>route_id,service_id,trip_id\<close>, the data row
  \<^verbatim>\<open>r1,s1\<close> is one field short: the labeller's \<^verbatim>\<open>row[2]\<close> raises IndexError before the width
  check is reached, so the abort error and its message are never produced.
\<close>

theorem short_row_raises_IndexError:
  "handle_file
     (sample_ext [(''cta/trips.txt'',
                   [[''route_id'', ''service_id'', ''trip_id''], [''r1'', ''s1'']])])
     ''cta/trips.txt'' ''cta'' [] = Inl IndexError"
proof -
  have s: "map strip [''route_id'', ''service_id'', ''trip_id''] =
      [''route_id'', ''service_id'', ''trip_id'']"
    by (simp add: strip_def isspace_def)
  show ?thesis
    unfolding handle_file_def short_trips_reader_rows trips_table_of_fname Let_def list.case
      sum.case s trips_required_fields trips_row_validator trips_labeller trips_columns_filter
      thenE_def trips_header_filtered
    by (simp add: process_row_def thenE_def trips_short_row_labelled)
qed

section \<open>Properties of the dataset loader\<close>










section \<open>Messages of the structural failures\<close>





end
